theory Spec2Isabelle
  imports Main "HOL-Library.AList"
begin

section \<open>Python string primitives used by the scraper\<close>

text \<open>
  Text is modelled as \<open>string\<close>; code points are restricted to the range below 256.
  \<open>isspace\<close> lists the characters of that range for which Python's \<open>str.isspace\<close> holds:
  these are the separators of \<open>str.split()\<close> without argument.
\<close>

definition newline :: char where
  "newline = CHR 0x0A"

definition isspace :: "char \<Rightarrow> bool" where
  "isspace c = (of_char c \<in> {9, 10, 11, 12, 13, 28, 29, 30, 31, 32, 133, 160 :: nat})"

text \<open>\<open>sep.join(xs)\<close>\<close>

fun py_join :: "string \<Rightarrow> string list \<Rightarrow> string" where
  "py_join sep [] = []"
| "py_join sep [x] = x"
| "py_join sep (x # y # ys) = x @ sep @ py_join sep (y # ys)"

text \<open>
  \<open>s.split(sep)\<close> for a one-character separator, as a scan that collects the current
  piece in \<open>cur\<close>. The result is never empty: \<open>"".split("\n") == [""]\<close>.
\<close>

fun split_acc :: "char \<Rightarrow> string \<Rightarrow> string \<Rightarrow> string list" where
  "split_acc sep cur [] = [cur]"
| "split_acc sep cur (c # cs) =
     (if c = sep then cur # split_acc sep [] cs else split_acc sep (cur @ [c]) cs)"

definition py_split :: "char \<Rightarrow> string \<Rightarrow> string list" where
  "py_split sep s = split_acc sep [] s"

text \<open>
  \<open>s.split()\<close>: runs of whitespace separate the words, and no empty word is produced.
\<close>

fun split_ws_acc :: "string \<Rightarrow> string \<Rightarrow> string list" where
  "split_ws_acc cur [] = (if cur = [] then [] else [cur])"
| "split_ws_acc cur (c # cs) =
     (if isspace c
      then (if cur = [] then split_ws_acc [] cs else cur # split_ws_acc [] cs)
      else split_ws_acc (cur @ [c]) cs)"

definition py_split_ws :: "string \<Rightarrow> string list" where
  "py_split_ws s = split_ws_acc [] s"

section \<open>Parsed HTML\<close>

text \<open>
  The tree BeautifulSoup builds: text strings, strings that \<open>get_text\<close> leaves out
  (comments), and tags with their children. The soup object itself is the tag
  \<open>[document]\<close>.
\<close>

datatype node = Text string | Comment string | Tag string "node list"

fun get_text :: "node \<Rightarrow> string" where
  "get_text (Text s) = s"
| "get_text (Comment s) = []"
| "get_text (Tag name kids) = concat (map get_text kids)"

text \<open>All nodes strictly below a node, in document order.\<close>

fun descendants :: "node \<Rightarrow> node list" where
  "descendants (Tag name kids) = concat (map (\<lambda>k. k # descendants k) kids)"
| "descendants (Text s) = []"
| "descendants (Comment s) = []"

fun tag_name :: "node \<Rightarrow> string option" where
  "tag_name (Tag name kids) = Some name"
| "tag_name (Text s) = None"
| "tag_name (Comment s) = None"

text \<open>\<open>tag.find_all(names)\<close> with a list of tag names.\<close>

definition find_all :: "string list \<Rightarrow> node \<Rightarrow> node list" where
  "find_all names t =
     filter (\<lambda>n. case tag_name n of None \<Rightarrow> False | Some nm \<Rightarrow> nm \<in> set names)
       (descendants t)"

section \<open>The page extractor\<close>

definition MIN_WORD_COUNT :: nat where
  "MIN_WORD_COUNT = 10"

definition relevant_tags :: "node \<Rightarrow> node list" where
  "relevant_tags soup = find_all [''h1'', ''p''] soup"

text \<open>The body of \<open>scrape_webpage\<close> after the page has been fetched and parsed.\<close>

definition filtered_text :: "node \<Rightarrow> string" where
  "filtered_text soup =
     (let text = py_join '' '' (map get_text (relevant_tags soup));
          sentences = py_split newline text;
          filtered_sentences =
            filter (\<lambda>s. length (py_split_ws s) \<ge> MIN_WORD_COUNT) sentences
      in py_join '' '' filtered_sentences)"

text \<open>
  \<open>scrape_webpage\<close>: \<open>get\<close> stands for \<open>requests.get\<close> followed by the parser; it
  yields the soup or the message of the exception raised.
\<close>

definition scrape_webpage :: "(string \<Rightarrow> string + node) \<Rightarrow> string \<Rightarrow> string + string" where
  "scrape_webpage get url =
     (case get url of Inl e \<Rightarrow> Inl e | Inr soup \<Rightarrow> Inr (filtered_text soup))"

section \<open>The sitemap reader\<close>

text \<open>
  An \<open>xml.etree\<close> element: its tag, its \<open>text\<close> attribute (\<open>None\<close> when the
  element has no text before its first child) and its children.
\<close>

datatype element = Element string "string option" "element list"

fun el_tag :: "element \<Rightarrow> string" where
  "el_tag (Element tag txt kids) = tag"

fun el_text :: "element \<Rightarrow> string option" where
  "el_text (Element tag txt kids) = txt"

fun el_children :: "element \<Rightarrow> element list" where
  "el_children (Element tag txt kids) = kids"

text \<open>All elements strictly below an element, in document order.\<close>

fun subelements :: "element \<Rightarrow> element list" where
  "subelements (Element tag txt kids) = concat (map (\<lambda>k. k # subelements k) kids)"

text \<open>\<open>e.findall(".//tag")\<close> and \<open>e.find(tag)\<close> (the first direct child with the tag).\<close>

definition findall_below :: "string \<Rightarrow> element \<Rightarrow> element list" where
  "findall_below tag e = filter (\<lambda>x. el_tag x = tag) (subelements e)"

definition find_child :: "string \<Rightarrow> element \<Rightarrow> element option" where
  "find_child tag e = List.find (\<lambda>x. el_tag x = tag) (el_children e)"

text \<open>The substring test \<open>sub in s\<close>.\<close>

fun starts_with :: "string \<Rightarrow> string \<Rightarrow> bool" where
  "starts_with [] s = True"
| "starts_with (p # ps) [] = False"
| "starts_with (p # ps) (c # cs) = (p = c \<and> starts_with ps cs)"

fun py_in :: "string \<Rightarrow> string \<Rightarrow> bool" where
  "py_in sub [] = (sub = [])"
| "py_in sub (c # cs) = (starts_with sub (c # cs) \<or> py_in sub cs)"

definition url_tag :: string where
  "url_tag = ''{http://www.sitemaps.org/schemas/sitemap/0.9}url''"

definition loc_tag :: string where
  "loc_tag = ''{http://www.sitemaps.org/schemas/sitemap/0.9}loc''"

text \<open>
  What \<open>get_urls_in_sitemap\<close> can raise: an exception of \<open>requests.get\<close> or of the XML
  parser, or the \<open>TypeError\<close> of \<open>"/search" not in None\<close>.
\<close>

datatype sitemap_error = Raised string | TypeError

text \<open>
  The list comprehension over the \<open>url\<close> elements, evaluated from left to right.
\<close>

fun loc_texts :: "element list \<Rightarrow> sitemap_error + string list" where
  "loc_texts [] = Inr []"
| "loc_texts (url # rest) =
     (case find_child loc_tag url of
        None \<Rightarrow> loc_texts rest
      | Some loc \<Rightarrow>
          (case el_text loc of
             None \<Rightarrow> Inl TypeError
           | Some t \<Rightarrow>
               if \<not> py_in ''/search'' t
               then (case loc_texts rest of Inl e \<Rightarrow> Inl e | Inr us \<Rightarrow> Inr (t # us))
               else loc_texts rest))"

definition get_urls_in_sitemap ::
  "(string \<Rightarrow> string + element) \<Rightarrow> string \<Rightarrow> sitemap_error + string list" where
  "get_urls_in_sitemap get sitemap_url =
     (case get sitemap_url of
        Inl e \<Rightarrow> Inl (Raised e)
      | Inr sitemap \<Rightarrow> loc_texts (findall_below url_tag sitemap))"

section \<open>The persister\<close>

text \<open>The decimal numeral that an f-string prints for a non-negative index.\<close>

definition digit_char :: "nat \<Rightarrow> char" where
  "digit_char d = char_of (48 + d)"

function str_nat :: "nat \<Rightarrow> string" where
  "str_nat n = (if n < 10 then [digit_char n] else str_nat (n div 10) @ [digit_char (n mod 10)])"
  by pat_completeness auto
termination
  by (relation "measure id") auto

datatype content = TextFile string | NpyFile "string list" | CsvFile "string list list"

text \<open>
  How an \<open>open(..., "w")\<close> block ends: everything written; \<open>open\<close> raised (the file is not
  touched); or a write raised after the file was truncated and some prefix had
  reached it. The string is the message of the exception.
\<close>

datatype write_result = Written | OpenFailed string | WriteFailed string nat

text \<open>
  The world the script runs in, as the answers it gives to the call made for the URL at
  position \<open>idx\<close>: the fetched and parsed page or the exception of the fetch, the fate of the
  text file, the raw random draw; and the fate of the two files written once.
\<close>

record env =
  get_page :: "nat \<Rightarrow> string \<Rightarrow> string + node"
  text_write :: "nat \<Rightarrow> write_result"
  rand :: "nat \<Rightarrow> nat"
  np_save :: "string option"
  csv_write :: write_result

text \<open>\<open>random.randint(a, b)\<close>: an integer \<open>N\<close> with \<open>a \<le> N \<le> b\<close>, from a raw draw.\<close>

definition randint :: "int \<Rightarrow> int \<Rightarrow> nat \<Rightarrow> int" where
  "randint a b r = a + int r mod (b - a + 1)"

record state =
  files :: "string \<rightharpoonup> content"
  stdout :: "string list"
  requested :: "string list"
  slept :: "int list"
  url_to_file_map :: "(string \<times> string) list"

definition webpage_filename :: "nat \<Rightarrow> string" where
  "webpage_filename idx = ''data/webpage_'' @ str_nat idx @ ''.txt''"

text \<open>One iteration of the loop of \<open>save_to_files\<close>.\<close>

definition process_url :: "env \<Rightarrow> nat \<Rightarrow> string \<Rightarrow> state \<Rightarrow> state" where
  "process_url env idx url s0 =
     (let s = s0\<lparr>requested := requested s0 @ [url]\<rparr> in
      case scrape_webpage (get_page env idx) url of
        Inl e \<Rightarrow>
          s\<lparr>stdout := stdout s @ [''Failed to scrape webpage: '' @ url @ '', due to: '' @ e]\<rparr>
      | Inr text \<Rightarrow>
          (let filename = webpage_filename idx;
               s' = (case text_write env idx of
                       Written \<Rightarrow>
                         s\<lparr>files := (files s)(filename \<mapsto> TextFile text),
                           stdout := stdout s @ [''Successfully wrote file: '' @ filename],
                           url_to_file_map := AList.update url filename (url_to_file_map s)\<rparr>
                     | OpenFailed e \<Rightarrow>
                         s\<lparr>stdout := stdout s @
                             [''Failed to write file: '' @ filename @ '', due to: '' @ e]\<rparr>
                     | WriteFailed e n \<Rightarrow>
                         s\<lparr>files := (files s)(filename \<mapsto> TextFile (take n text)),
                           stdout := stdout s @
                             [''Failed to write file: '' @ filename @ '', due to: '' @ e]\<rparr>)
           in s'\<lparr>slept := slept s' @ [randint 3 7 (rand env idx)]\<rparr>))"

text \<open>The loop \<open>for idx, url in enumerate(urls)\<close>, started at index \<open>idx\<close>.\<close>

fun process_urls :: "env \<Rightarrow> nat \<Rightarrow> string list \<Rightarrow> state \<Rightarrow> state" where
  "process_urls env idx [] s = s"
| "process_urls env idx (url # rest) s =
     process_urls env (Suc idx) rest (process_url env idx url s)"

definition csv_rows :: "(string \<times> string) list \<Rightarrow> string list list" where
  "csv_rows m = [''URL'', ''Document''] # map (\<lambda>(url, filename). [url, filename]) m"

text \<open>The last block of \<open>save_to_files\<close>: the mapping is written as CSV rows.\<close>

definition write_url_to_file_map :: "env \<Rightarrow> state \<Rightarrow> state" where
  "write_url_to_file_map env s =
     (let rows = csv_rows (url_to_file_map s) in
      case csv_write env of
        Written \<Rightarrow>
          s\<lparr>files := (files s)(''data/url_to_file_map.csv'' \<mapsto> CsvFile rows)\<rparr>
      | OpenFailed e \<Rightarrow>
          s\<lparr>stdout := stdout s @ [''Failed to write URL to file map, due to: '' @ e]\<rparr>
      | WriteFailed e n \<Rightarrow>
          s\<lparr>files := (files s)(''data/url_to_file_map.csv'' \<mapsto> CsvFile (take n rows)),
            stdout := stdout s @ [''Failed to write URL to file map, due to: '' @ e]\<rparr>)"

text \<open>
  \<open>save_to_files\<close>: an exception of \<open>np.save\<close> is not caught and ends the call; every
  other exception is caught and printed. \<open>url_to_file_map\<close> starts empty.
\<close>

definition save_to_files :: "env \<Rightarrow> string list \<Rightarrow> state \<Rightarrow> string + state" where
  "save_to_files env urls s0 =
     (case np_save env of
        Some e \<Rightarrow> Inl e
      | None \<Rightarrow>
          (let s1 = s0\<lparr>files := (files s0)(''data/url_list.npy'' \<mapsto> NpyFile urls),
                      url_to_file_map := []\<rparr>;
               s = process_urls env 0 urls s1
           in Inr (write_url_to_file_map env s)))"

section \<open>The specification's wording of the page extractor\<close>

text \<open>
  The steps of the extractor as the specification words them, defined independently of
  the scanning functions above: the lines of a text are cut at its newline characters,
  the word count of a line is the number of places where a word begins, and joining
  puts one space before every piece but the first.
\<close>

function spec_lines :: "string \<Rightarrow> string list" where
  "spec_lines s =
     (if newline \<in> set s
      then takeWhile (\<lambda>c. c \<noteq> newline) s # spec_lines (tl (dropWhile (\<lambda>c. c \<noteq> newline) s))
      else [s])"
  by pat_completeness auto
termination
proof (relation "measure length")
  show "wf (measure length)" by simp
next
  fix s :: string
  assume "newline \<in> set s"
  then have "dropWhile (\<lambda>c. c \<noteq> newline) s \<noteq> []" by (simp add: dropWhile_eq_Nil_conv)
  moreover have "length (dropWhile (\<lambda>c. c \<noteq> newline) s) \<le> length s"
    by (rule length_dropWhile_le)
  ultimately show "(tl (dropWhile (\<lambda>c. c \<noteq> newline) s), s) \<in> measure length"
    by (cases "dropWhile (\<lambda>c. c \<noteq> newline) s") auto
qed

fun word_starts :: "bool \<Rightarrow> string \<Rightarrow> nat" where
  "word_starts after_space [] = 0"
| "word_starts after_space (c # cs) =
     (if \<not> isspace c \<and> after_space then 1 else 0) + word_starts (isspace c) cs"

definition spec_word_count :: "string \<Rightarrow> nat" where
  "spec_word_count s = word_starts True s"

definition spec_join_spaces :: "string list \<Rightarrow> string" where
  "spec_join_spaces xs =
     (case xs of [] \<Rightarrow> [] | x # rest \<Rightarrow> x @ concat (map (\<lambda>y. '' '' @ y) rest))"

definition spec_scrape_text :: "node \<Rightarrow> string" where
  "spec_scrape_text soup =
     spec_join_spaces
       (filter (\<lambda>line. \<not> spec_word_count line < 10)
          (spec_lines (spec_join_spaces (map get_text (relevant_tags soup)))))"

section \<open>The specification's wording of the selection and of the sitemap reader\<close>

text \<open>
  Heading elements are \<open>h1\<close> to \<open>h6\<close>, paragraph elements are \<open>p\<close>. The sitemap reader
  as the specification words it collects the text of every \<open>loc\<close> child of every
  \<open>url\<close> element; \<open>first_loc_text\<close> is the text of the first \<open>loc\<close> child only.
\<close>

definition is_heading :: "node \<Rightarrow> bool" where
  "is_heading n =
     (case tag_name n of
        None \<Rightarrow> False
      | Some nm \<Rightarrow> nm \<in> set [''h1'', ''h2'', ''h3'', ''h4'', ''h5'', ''h6''])"

definition is_paragraph :: "node \<Rightarrow> bool" where
  "is_paragraph n = (tag_name n = Some ''p'')"

definition spec_selected :: "node \<Rightarrow> node list" where
  "spec_selected soup = filter (\<lambda>n. is_heading n \<or> is_paragraph n) (descendants soup)"

definition loc_children_texts :: "element \<Rightarrow> string list" where
  "loc_children_texts url =
     List.map_filter el_text (filter (\<lambda>c. el_tag c = loc_tag) (el_children url))"

definition spec_sitemap_urls :: "element \<Rightarrow> string list" where
  "spec_sitemap_urls sitemap =
     filter (\<lambda>v. \<not> py_in ''/search'' v)
       (concat (map loc_children_texts (findall_below url_tag sitemap)))"

definition first_loc_text :: "element \<Rightarrow> string option" where
  "first_loc_text url =
     (case find_child loc_tag url of None \<Rightarrow> None | Some loc \<Rightarrow> el_text loc)"

section \<open>Concrete pages and sitemaps\<close>

definition page_h2 :: node where
  "page_h2 = Tag ''[document]'' [Tag ''h2'' [Text ''Opening hours'']]"

definition sitemap_two_locs :: element where
  "sitemap_two_locs =
     Element ''{http://www.sitemaps.org/schemas/sitemap/0.9}urlset'' None
       [Element url_tag None
          [Element loc_tag (Some ''https://a.example/'') [],
           Element loc_tag (Some ''https://b.example/'') []]]"

definition get_two_locs :: "string \<Rightarrow> string + element" where
  "get_two_locs u = Inr sitemap_two_locs"

definition sitemap_sample :: element where
  "sitemap_sample =
     Element ''{http://www.sitemaps.org/schemas/sitemap/0.9}urlset'' None
       [Element url_tag None [Element loc_tag (Some ''https://a.example/'') []],
        Element url_tag None [Element loc_tag (Some ''https://a.example/search?q=x'') []],
        Element url_tag None [],
        Element url_tag None [Element loc_tag (Some ''https://a.example/b'') []]]"

definition get_sample :: "string \<Rightarrow> string + element" where
  "get_sample u = Inr sitemap_sample"

section \<open>Notions used to state the properties of the persister\<close>

text \<open>
  \<open>nat_of_digits\<close> reads a decimal numeral back. A URL at a position is \<open>scraped\<close> when
  its scrape returns a text, and \<open>written\<close> when in addition its text file is written
  in full. \<open>final_files\<close> and \<open>final_slept\<close> read the outcome of a whole call.
\<close>

definition nat_of_digits :: "string \<Rightarrow> nat" where
  "nat_of_digits s = foldl (\<lambda>a c. 10 * a + (of_char c - 48)) 0 s"

definition scraped :: "env \<Rightarrow> nat \<Rightarrow> string \<Rightarrow> bool" where
  "scraped env idx url =
     (case scrape_webpage (get_page env idx) url of Inl e \<Rightarrow> False | Inr text \<Rightarrow> True)"


definition final_files :: "string + state \<Rightarrow> string \<Rightarrow> content option" where
  "final_files r f = (case r of Inl e \<Rightarrow> None | Inr s \<Rightarrow> files s f)"

definition final_slept :: "string + state \<Rightarrow> int list" where
  "final_slept r = (case r of Inl e \<Rightarrow> [] | Inr s \<Rightarrow> slept s)"

section \<open>A concrete page and concrete runs\<close>

text \<open>
  A page with a heading and a paragraph of two lines, a world in which one URL cannot be
  fetched, and a world in which no text file can be opened.
\<close>

definition page_long :: node where
  "page_long =
     Tag ''[document]''
       [Tag ''h1'' [Text ''Welcome''],
        Tag ''p'' [Text [CHR ''o'', CHR ''n'', CHR ''e'', CHR '' '', CHR ''t'', CHR ''w'', CHR ''o'',
                        CHR '' '', CHR ''3'', CHR '' '', CHR ''4'', CHR '' '', CHR ''5'', CHR '' '',
                        CHR ''6'', CHR '' '', CHR ''7'', CHR '' '', CHR ''8'', CHR '' '', CHR ''9'',
                        CHR 0x0A, CHR ''e'', CHR ''n'', CHR ''d'']]]"

definition state0 :: state where
  "state0 = \<lparr>files = Map.empty, stdout = [], requested = [], slept = [], url_to_file_map = []\<rparr>"

definition get_page_sample :: "nat \<Rightarrow> string \<Rightarrow> string + node" where
  "get_page_sample idx url =
     (if url = ''https://a.example/gone'' then Inl ''404 Not Found'' else Inr page_long)"

definition always_written :: "nat \<Rightarrow> write_result" where
  "always_written idx = Written"


definition rand_sample :: "nat \<Rightarrow> nat" where
  "rand_sample idx = idx"

definition env_sample :: env where
  "env_sample = \<lparr>get_page = get_page_sample, text_write = always_written, rand = rand_sample,
                  np_save = None, csv_write = Written\<rparr>"


definition urls_sample :: "string list" where
  "urls_sample = [''https://a.example/'', ''https://a.example/gone'', ''https://a.example/b'']"

section \<open>Properties of the page extractor\<close>

declare spec_lines.simps [simp del]

lemma spec_lines_Nil: "spec_lines [] = [[]]"
  by (simp add: spec_lines.simps[of "[]"])

lemma spec_lines_nonempty: "spec_lines s \<noteq> []"
  by (simp add: spec_lines.simps[of s])

lemma spec_lines_Cons:
  "spec_lines (c # cs) =
     (if c = newline then [] # spec_lines cs
      else (c # hd (spec_lines cs)) # tl (spec_lines cs))"
proof (cases "c = newline")
  case True
  have "spec_lines (newline # cs) = [] # spec_lines cs"
    by (subst spec_lines.simps) simp
  with True show ?thesis by simp
next
  case False
  show ?thesis
  proof (cases "newline \<in> set cs")
    case True
    with False show ?thesis
      by (subst spec_lines.simps, subst (2) spec_lines.simps, subst (3) spec_lines.simps) auto
  next
    case nin: False
    with False show ?thesis
      by (subst spec_lines.simps, subst (2) spec_lines.simps, subst (3) spec_lines.simps) auto
  qed
qed

lemma split_acc_lines:
  "split_acc newline cur s = (cur @ hd (spec_lines s)) # tl (spec_lines s)"
proof (induction s arbitrary: cur)
  case Nil
  show ?case by (simp add: spec_lines_Nil)
next
  case (Cons c cs)
  have "hd (spec_lines cs) # tl (spec_lines cs) = spec_lines cs"
    using spec_lines_nonempty[of cs] by simp
  then show ?case
    by (simp add: spec_lines_Cons Cons.IH)
qed

lemma py_split_lines: "py_split newline s = spec_lines s"
  using spec_lines_nonempty[of s] by (simp add: py_split_def split_acc_lines)

lemma split_ws_acc_count:
  "length (split_ws_acc cur s) = word_starts (cur = []) s + (if cur = [] then 0 else 1)"
  by (induction s arbitrary: cur) auto

lemma py_split_ws_count: "length (py_split_ws s) = spec_word_count s"
  by (simp add: py_split_ws_def spec_word_count_def split_ws_acc_count)

lemma py_join_spaces: "py_join '' '' xs = spec_join_spaces xs"
  by (induction "'' ''" xs rule: py_join.induct) (simp_all add: spec_join_spaces_def)

text \<open>
  C1: for every fetched page, \<open>scrape_webpage\<close> returns the texts of the selected
  elements joined with single spaces, cut at the newline characters, without the lines
  of fewer than ten words, the remaining lines joined with single spaces. A failed fetch
  is passed on as it is.
\<close>

theorem scrape_webpage_text:
  "scrape_webpage get url =
     (case get url of Inl e \<Rightarrow> Inl e | Inr soup \<Rightarrow> Inr (spec_scrape_text soup))"
  by (simp add: scrape_webpage_def filtered_text_def spec_scrape_text_def MIN_WORD_COUNT_def
      py_split_lines py_split_ws_count py_join_spaces not_less split: sum.split)

text \<open>
  C5, as stated: the elements whose text is extracted are all heading elements and all
  paragraph elements of the page. On a page whose only element is an \<open>h2\<close> heading the
  heading is below the root and is a heading element, yet it is not selected.
\<close>

theorem relevant_tags_h2_counterexample:
  "Tag ''h2'' [Text ''Opening hours''] \<in> set (descendants page_h2) \<and>
   is_heading (Tag ''h2'' [Text ''Opening hours'']) \<and>
   Tag ''h2'' [Text ''Opening hours''] \<notin> set (relevant_tags page_h2) \<and>
   relevant_tags page_h2 \<noteq> spec_selected page_h2"
  by (simp add: page_h2_def is_heading_def is_paragraph_def spec_selected_def
      relevant_tags_def find_all_def)

text \<open>
  C5, amended: the selected elements are exactly the \<open>h1\<close> elements and the paragraph
  elements below the root of the parsed page, in document order.
\<close>

theorem relevant_tags_h1_p:
  "relevant_tags soup =
     filter (\<lambda>n. tag_name n = Some ''h1'' \<or> is_paragraph n) (descendants soup)"
proof -
  have "(case tag_name n of None \<Rightarrow> False | Some nm \<Rightarrow> nm \<in> set [''h1'', ''p''])
          = (tag_name n = Some ''h1'' \<or> is_paragraph n)" for n
    by (cases "tag_name n") (auto simp: is_paragraph_def)
  then show ?thesis
    by (simp add: relevant_tags_def find_all_def)
qed

section \<open>Properties of the sitemap reader\<close>

lemma starts_with_iff: "starts_with p s \<longleftrightarrow> (\<exists>q. s = p @ q)"
  by (induction p s rule: starts_with.induct) auto

lemma py_in_iff: "py_in sub s \<longleftrightarrow> (\<exists>p q. s = p @ sub @ q)"
proof (induction s)
  case Nil
  show ?case by auto
next
  case (Cons c cs)
  show ?case
  proof
    assume "py_in sub (c # cs)"
    then consider "starts_with sub (c # cs)" | "py_in sub cs" by auto
    then show "\<exists>p q. c # cs = p @ sub @ q"
    proof cases
      case 1
      then obtain q where "c # cs = sub @ q" by (auto simp: starts_with_iff)
      then have "c # cs = [] @ sub @ q" by simp
      then show ?thesis by blast
    next
      case 2
      with Cons.IH obtain p q where "cs = p @ sub @ q" by auto
      then have "c # cs = (c # p) @ sub @ q" by simp
      then show ?thesis by blast
    qed
  next
    assume "\<exists>p q. c # cs = p @ sub @ q"
    then obtain p q where pq: "c # cs = p @ sub @ q" by auto
    show "py_in sub (c # cs)"
    proof (cases p)
      case Nil
      with pq have "starts_with sub (c # cs)" by (auto simp: starts_with_iff)
      then show ?thesis by simp
    next
      case (Cons a p')
      with pq have "cs = p' @ sub @ q" by simp
      with Cons.IH have "py_in sub cs" by blast
      then show ?thesis by simp
    qed
  qed
qed

lemma loc_texts_append_cong:
  "loc_texts ys = loc_texts zs \<Longrightarrow> loc_texts (xs @ ys) = loc_texts (xs @ zs)"
  by (induction xs) (auto split: option.splits)

text \<open>
  C9: a \<open>url\<close> element without \<open>loc\<close> child is silently left out: the call yields what
  it yields on the same \<open>url\<close> elements without that one, be it a list or an error
  raised by another element.
\<close>

theorem url_without_loc_excluded:
  assumes "get sitemap_url = Inr sitemap"
    and "findall_below url_tag sitemap = before @ url # after"
    and "find_child loc_tag url = None"
  shows "get_urls_in_sitemap get sitemap_url = loc_texts (before @ after)"
proof -
  have "loc_texts (url # after) = loc_texts after"
    using assms(3) by simp
  then have "loc_texts (before @ url # after) = loc_texts (before @ after)"
    by (rule loc_texts_append_cong)
  with assms(1,2) show ?thesis
    by (simp add: get_urls_in_sitemap_def)
qed

theorem url_without_loc_excluded_witness:
  "find_child loc_tag (Element url_tag None []) = None \<and>
   get_urls_in_sitemap get_sample ''https://a.example/sitemap.xml'' =
     Inr [''https://a.example/'', ''https://a.example/b'']"
  using url_without_loc_excluded[of get_sample "''https://a.example/sitemap.xml''" sitemap_sample
      "[Element url_tag None [Element loc_tag (Some ''https://a.example/'') []],
        Element url_tag None [Element loc_tag (Some ''https://a.example/search?q=x'') []]]"
      "Element url_tag None []"
      "[Element url_tag None [Element loc_tag (Some ''https://a.example/b'') []]]"]
  by (simp add: get_sample_def sitemap_sample_def findall_below_def find_child_def
      url_tag_def loc_tag_def)

text \<open>
  C2, as stated: the result lists the text of the \<open>loc\<close> children of the \<open>url\<close> elements
  that do not contain \<open>/search\<close>. A \<open>url\<close> element with two \<open>loc\<close> children contributes
  only the first.
\<close>

theorem sitemap_two_locs_counterexample:
  "get_urls_in_sitemap get_two_locs ''https://a.example/sitemap.xml'' = Inr [''https://a.example/'']
   \<and> spec_sitemap_urls sitemap_two_locs = [''https://a.example/'', ''https://b.example/'']"
  by (simp add: get_urls_in_sitemap_def get_two_locs_def sitemap_two_locs_def
      findall_below_def find_child_def spec_sitemap_urls_def loc_children_texts_def
      List.map_filter_simps url_tag_def loc_tag_def)

lemma loc_texts_first:
  "\<forall>url \<in> set us. \<forall>loc. find_child loc_tag url = Some loc \<longrightarrow> el_text loc \<noteq> None \<Longrightarrow>
   loc_texts us = Inr (filter (\<lambda>t. \<not> py_in ''/search'' t) (List.map_filter first_loc_text us))"
proof (induction us)
  case Nil
  show ?case by (simp add: List.map_filter_simps)
next
  case (Cons u us)
  then have IH: "loc_texts us =
      Inr (filter (\<lambda>t. \<not> py_in ''/search'' t) (List.map_filter first_loc_text us))"
    by simp
  show ?case
  proof (cases "find_child loc_tag u")
    case None
    then have "first_loc_text u = None" by (simp add: first_loc_text_def)
    with None show ?thesis by (simp add: IH List.map_filter_simps)
  next
    case (Some loc)
    with Cons.prems obtain t where t: "el_text loc = Some t" by auto
    with Some have "first_loc_text u = Some t" by (simp add: first_loc_text_def)
    with Some t show ?thesis
      by (simp add: IH List.map_filter_simps)
  qed
qed

text \<open>
  C2, amended: when the first \<open>loc\<close> child of every \<open>url\<close> element has a text, the result
  is the list, in document order, of the texts of the first \<open>loc\<close> child of each \<open>url\<close>
  element below the root that has one, without the texts that contain \<open>/search\<close>.
\<close>

theorem get_urls_first_loc:
  assumes "get sitemap_url = Inr sitemap"
    and "\<forall>url \<in> set (findall_below url_tag sitemap).
           \<forall>loc. find_child loc_tag url = Some loc \<longrightarrow> el_text loc \<noteq> None"
  shows "get_urls_in_sitemap get sitemap_url =
           Inr (filter (\<lambda>t. \<not> (\<exists>p q. t = p @ ''/search'' @ q))
                  (List.map_filter first_loc_text (findall_below url_tag sitemap)))"
  using loc_texts_first[OF assms(2)] assms(1)
  by (simp add: get_urls_in_sitemap_def py_in_iff)

theorem get_urls_first_loc_witness:
  "get_urls_in_sitemap get_sample ''https://a.example/sitemap.xml'' =
     Inr [''https://a.example/'', ''https://a.example/b'']"
  using get_urls_first_loc[of get_sample "''https://a.example/sitemap.xml''" sitemap_sample,
      unfolded py_in_iff[symmetric]]
  by (simp add: get_sample_def sitemap_sample_def findall_below_def find_child_def
      url_tag_def loc_tag_def first_loc_text_def List.map_filter_simps)

section \<open>Properties of the persister\<close>

subsection \<open>File names\<close>

declare str_nat.simps [simp del]

lemma digit_char_code: "d < 10 \<Longrightarrow> of_char (digit_char d) = 48 + d"
  by (simp add: digit_char_def)

lemma nat_of_digits_snoc:
  "nat_of_digits (s @ [c]) = 10 * nat_of_digits s + (of_char c - 48)"
  by (simp add: nat_of_digits_def)

lemma nat_of_digits_str_nat: "nat_of_digits (str_nat n) = n"
proof (induction n rule: str_nat.induct)
  case (1 n)
  show ?case
  proof (cases "n < 10")
    case True
    then show ?thesis
      by (subst str_nat.simps) (simp add: nat_of_digits_def digit_char_code)
  next
    case False
    then have "nat_of_digits (str_nat (n div 10)) = n div 10"
      using "1.IH" by simp
    with False show ?thesis
      by (subst str_nat.simps) (simp add: nat_of_digits_snoc digit_char_code)
  qed
qed

lemma str_nat_inj: "str_nat i = str_nat j \<Longrightarrow> i = j"
  by (metis nat_of_digits_str_nat)

lemma webpage_filename_inj: "webpage_filename i = webpage_filename j \<Longrightarrow> i = j"
  by (simp add: webpage_filename_def str_nat_inj)

lemma webpage_filename_last: "last (webpage_filename i) = CHR ''t''"
  by (simp add: webpage_filename_def)

lemma webpage_filename_not_npy: "webpage_filename i \<noteq> ''data/url_list.npy''"
proof
  assume "webpage_filename i = ''data/url_list.npy''"
  then have "last (webpage_filename i) = last ''data/url_list.npy''" by simp
  then show False by (simp add: webpage_filename_last)
qed

lemma webpage_filename_not_csv: "webpage_filename i \<noteq> ''data/url_to_file_map.csv''"
proof
  assume "webpage_filename i = ''data/url_to_file_map.csv''"
  then have "last (webpage_filename i) = last ''data/url_to_file_map.csv''" by simp
  then show False by (simp add: webpage_filename_last)
qed

subsection \<open>One iteration\<close>



lemma process_url_slept:
  "slept (process_url env idx url s) =
     (if scraped env idx url then slept s @ [randint 3 7 (rand env idx)] else slept s)"
  by (simp add: process_url_def scraped_def Let_def split: sum.split write_result.split)

lemma process_url_files:
  "files (process_url env idx url s) =
     (case scrape_webpage (get_page env idx) url of
        Inl e \<Rightarrow> files s
      | Inr text \<Rightarrow>
          (case text_write env idx of
             Written \<Rightarrow> (files s)(webpage_filename idx \<mapsto> TextFile text)
           | OpenFailed e \<Rightarrow> files s
           | WriteFailed e n \<Rightarrow> (files s)(webpage_filename idx \<mapsto> TextFile (take n text))))"
  by (simp add: process_url_def Let_def split: sum.split write_result.split)



lemma process_url_files_other:
  "f \<noteq> webpage_filename idx \<Longrightarrow> files (process_url env idx url s) f = files s f"
  by (simp add: process_url_files split: sum.split write_result.split)

lemma process_url_files_cong:
  "files s1 (webpage_filename idx) = files s2 (webpage_filename idx) \<Longrightarrow>
   files (process_url env idx url s1) (webpage_filename idx) =
   files (process_url env idx url s2) (webpage_filename idx)"
  by (simp add: process_url_files split: sum.split write_result.split)

subsection \<open>The loop\<close>


lemma process_urls_slept:
  "slept (process_urls env k urls s) =
     slept s @ map (\<lambda>(i, u). randint 3 7 (rand env i))
                 (filter (\<lambda>(i, u). scraped env i u) (List.enumerate k urls))"
  by (induction urls arbitrary: k s) (simp_all add: process_url_slept)



lemma process_urls_files_other:
  "(\<And>i. i < length urls \<Longrightarrow> f \<noteq> webpage_filename (k + i)) \<Longrightarrow>
   files (process_urls env k urls s) f = files s f"
proof (induction urls arbitrary: k s)
  case Nil
  show ?case by simp
next
  case (Cons u us)
  have a: "f \<noteq> webpage_filename k" using Cons.prems[of 0] by simp
  have b: "\<And>i. i < length us \<Longrightarrow> f \<noteq> webpage_filename (Suc k + i)"
    using Cons.prems[of "Suc i" for i] by simp
  show ?case
    using Cons.IH[of "Suc k" "process_url env k u s", OF b] a
    by (simp add: process_url_files_other)
qed

lemma process_urls_files_at:
  "i < length urls \<Longrightarrow>
   files (process_urls env k urls s) (webpage_filename (k + i)) =
   files (process_url env (k + i) (urls ! i) s) (webpage_filename (k + i))"
proof (induction urls arbitrary: k s i)
  case Nil
  then show ?case by simp
next
  case (Cons u us)
  show ?case
  proof (cases i)
    case 0
    have "files (process_urls env (Suc k) us (process_url env k u s)) (webpage_filename k)
        = files (process_url env k u s) (webpage_filename k)"
      by (rule process_urls_files_other) (auto dest: webpage_filename_inj)
    with 0 show ?thesis by simp
  next
    case (Suc j)
    with Cons.prems have j: "j < length us" by simp
    have "files (process_url env k u s) (webpage_filename (Suc k + j))
        = files s (webpage_filename (Suc k + j))"
      by (rule process_url_files_other) (auto dest: webpage_filename_inj)
    then have "files (process_url env (Suc k + j) (us ! j) (process_url env k u s))
          (webpage_filename (Suc k + j))
        = files (process_url env (Suc k + j) (us ! j) s) (webpage_filename (Suc k + j))"
      by (rule process_url_files_cong)
    with Cons.IH[OF j, of "Suc k" "process_url env k u s"] Suc show ?thesis by simp
  qed
qed





subsection \<open>The sample page\<close>

lemma page_long_text: "filtered_text page_long = ''Welcome one two 3 4 5 6 7 8 9''"
  by (simp add: filtered_text_def relevant_tags_def find_all_def page_long_def py_split_def
      py_split_ws_def newline_def isspace_def MIN_WORD_COUNT_def)

subsection \<open>No newline in the extracted text\<close>

lemma split_acc_no_sep_all:
  "sep \<notin> set cur \<Longrightarrow> \<forall>l \<in> set (split_acc sep cur s). sep \<notin> set l"
proof (induction s arbitrary: cur)
  case Nil
  then show ?case by simp
next
  case (Cons c cs)
  show ?case
  proof (cases "c = sep")
    case True
    with Cons.IH[of "[]"] Cons.prems show ?thesis by simp
  next
    case False
    with Cons.IH[of "cur @ [c]"] Cons.prems show ?thesis by simp
  qed
qed

lemma split_acc_no_sep:
  "sep \<notin> set cur \<Longrightarrow> l \<in> set (split_acc sep cur s) \<Longrightarrow> sep \<notin> set l"
  using split_acc_no_sep_all by blast

lemma py_join_chars:
  "c \<in> set (py_join sep xs) \<Longrightarrow> c \<in> set sep \<or> (\<exists>x \<in> set xs. c \<in> set x)"
  by (induction sep xs rule: py_join.induct) auto

lemma filtered_text_no_newline: "newline \<notin> set (filtered_text soup)"
proof
  assume "newline \<in> set (filtered_text soup)"
  then obtain l where l: "l \<in> set (py_split newline (py_join '' '' (map get_text (relevant_tags soup))))"
    and nl: "newline \<in> set l"
    by (auto simp add: filtered_text_def Let_def newline_def dest!: py_join_chars)
  from l have "newline \<notin> set l"
    unfolding py_split_def by (rule split_acc_no_sep[rotated]) simp
  with nl show False by simp
qed

subsection \<open>The whole call\<close>

lemma write_url_to_file_map_files_other:
  "f \<noteq> ''data/url_to_file_map.csv'' \<Longrightarrow> files (write_url_to_file_map env s) f = files s f"
  by (simp add: write_url_to_file_map_def Let_def split: write_result.split)

lemma write_url_to_file_map_fields:
  "slept (write_url_to_file_map env s) = slept s"
  "requested (write_url_to_file_map env s) = requested s"
  "url_to_file_map (write_url_to_file_map env s) = url_to_file_map s"
  "set (stdout s) \<subseteq> set (stdout (write_url_to_file_map env s))"
  by (auto simp add: write_url_to_file_map_def Let_def split: write_result.split)

lemma save_to_files_Inr:
  "save_to_files env urls s0 = Inr s \<Longrightarrow>
   s = write_url_to_file_map env
         (process_urls env 0 urls
            (s0\<lparr>files := (files s0)(''data/url_list.npy'' \<mapsto> NpyFile urls),
                url_to_file_map := []\<rparr>))"
  by (auto simp add: save_to_files_def Let_def split: option.splits)

lemma save_to_files_webpage_file:
  assumes "save_to_files env urls s0 = Inr s" and "i < length urls"
  shows "files s (webpage_filename i) =
         files (process_url env i (urls ! i) s0) (webpage_filename i)"
proof -
  let ?s1 = "s0\<lparr>files := (files s0)(''data/url_list.npy'' \<mapsto> NpyFile urls),
                 url_to_file_map := []\<rparr>"
  have s: "s = write_url_to_file_map env (process_urls env 0 urls ?s1)"
    using assms(1) by (rule save_to_files_Inr)
  have "files s (webpage_filename i) = files (process_urls env 0 urls ?s1) (webpage_filename i)"
    unfolding s by (rule write_url_to_file_map_files_other) (rule webpage_filename_not_csv)
  also have "\<dots> = files (process_url env (0 + i) (urls ! i) ?s1) (webpage_filename (0 + i))"
    using process_urls_files_at[OF assms(2), of env 0 ?s1] by simp
  also have "\<dots> = files (process_url env i (urls ! i) s0) (webpage_filename i)"
    using process_url_files_cong[of ?s1 i s0 env "urls ! i"]
    by (simp add: webpage_filename_not_npy)
  finally show ?thesis .
qed



lemma run_sample: "\<exists>s. save_to_files env_sample urls_sample state0 = Inr s"
  by (simp add: save_to_files_def env_sample_def)



text \<open>
  C7: the text of a URL that is scraped and written is in the file
  \<open>data/webpage_{idx}.txt\<close>, where \<open>idx\<close> is the position of the URL in the input list,
  printed as a decimal numeral: reading the numeral back gives the position.
\<close>

theorem text_written_to_indexed_file:
  assumes "save_to_files env urls s0 = Inr s"
    and "i < length urls"
    and "scrape_webpage (get_page env i) (urls ! i) = Inr text"
    and "text_write env i = Written"
  shows "files s (''data/webpage_'' @ str_nat i @ ''.txt'') = Some (TextFile text) \<and>
         nat_of_digits (str_nat i) = i"
  using save_to_files_webpage_file[OF assms(1,2)] assms(3,4)
  by (simp add: process_url_files webpage_filename_def nat_of_digits_str_nat)

theorem text_written_to_indexed_file_witness:
  "final_files (save_to_files env_sample urls_sample state0) ''data/webpage_2.txt''
     = Some (TextFile ''Welcome one two 3 4 5 6 7 8 9'')"
proof -
  obtain s where s: "save_to_files env_sample urls_sample state0 = Inr s"
    using run_sample by blast
  have i: "2 < length urls_sample" by (simp add: urls_sample_def)
  have sc: "scrape_webpage (get_page env_sample 2) (urls_sample ! 2)
      = Inr ''Welcome one two 3 4 5 6 7 8 9''"
    by (simp add: scrape_webpage_def env_sample_def get_page_sample_def urls_sample_def
        page_long_text)
  have w: "text_write env_sample 2 = Written"
    by (simp add: env_sample_def always_written_def)
  have "str_nat 2 = ''2''" by code_simp
  with text_written_to_indexed_file[OF s i sc w] show ?thesis
    by (simp add: final_files_def s)
qed






text \<open>
  C8, as stated: the delay after each URL is a constant. With two URLs and the raw draws
  0 and 1 the two delays are 3 and 4 seconds.
\<close>

theorem sleep_durations_counterexample:
  "final_slept (save_to_files env_sample [''https://a.example/'', ''https://a.example/b''] state0)
     = [3, 4]"
  by (simp add: final_slept_def save_to_files_def env_sample_def process_url_def
      scrape_webpage_def get_page_sample_def always_written_def rand_sample_def randint_def
      write_url_to_file_map_def state0_def Let_def)

lemma randint_bounds: "a \<le> b \<Longrightarrow> a \<le> randint a b r \<and> randint a b r \<le> b"
proof -
  assume "a \<le> b"
  then have pos: "0 < b - a + 1" by simp
  have "0 \<le> int r mod (b - a + 1)" using pos by (rule pos_mod_sign)
  moreover have "int r mod (b - a + 1) < b - a + 1" using pos by (rule pos_mod_bound)
  ultimately show ?thesis unfolding randint_def by linarith
qed

text \<open>
  C8, amended: one delay is inserted after each URL whose scrape returned, in order, none
  after a URL whose scrape raised; each delay is \<open>random.randint(3, 7)\<close>, a random whole
  number of seconds from 3 to 7.
\<close>

theorem sleep_random_after_scraped:
  assumes "save_to_files env urls s0 = Inr s"
  shows "slept s = slept s0 @ map (\<lambda>(i, u). randint 3 7 (rand env i))
                               (filter (\<lambda>(i, u). scraped env i u) (List.enumerate 0 urls)) \<and>
         (\<forall>r. 3 \<le> randint 3 7 r \<and> randint 3 7 r \<le> 7)"
proof -
  let ?s1 = "s0\<lparr>files := (files s0)(''data/url_list.npy'' \<mapsto> NpyFile urls),
                 url_to_file_map := []\<rparr>"
  have s: "s = write_url_to_file_map env (process_urls env 0 urls ?s1)"
    using assms by (rule save_to_files_Inr)
  have "slept s = slept s0 @ map (\<lambda>(i, u). randint 3 7 (rand env i))
                               (filter (\<lambda>(i, u). scraped env i u) (List.enumerate 0 urls))"
    unfolding s by (simp add: write_url_to_file_map_fields process_urls_slept)
  moreover have "\<forall>r. 3 \<le> randint 3 7 r \<and> randint 3 7 r \<le> 7"
    using randint_bounds[of 3 7] by simp
  ultimately show ?thesis by blast
qed

theorem sleep_random_after_scraped_witness:
  "final_slept (save_to_files env_sample urls_sample state0) = [3, 5]"
proof -
  obtain s where s: "save_to_files env_sample urls_sample state0 = Inr s"
    using run_sample by blast
  from sleep_random_after_scraped[OF s] have "slept s = [3, 5]"
    by (simp add: urls_sample_def scraped_def scrape_webpage_def
        env_sample_def get_page_sample_def rand_sample_def randint_def state0_def)
  then show ?thesis
    by (simp add: final_slept_def s)
qed

text \<open>
  C10: the text returned by \<open>scrape_webpage\<close> has no newline character; so the text file
  written for a URL, in full or up to the point where the write failed, has none.
\<close>

theorem scraped_text_single_line:
  assumes "scrape_webpage get url = Inr text"
  shows "newline \<notin> set text \<and>
         (\<forall>env urls s0 s i.
            save_to_files env urls s0 = Inr s \<and> i < length urls \<and>
            get_page env i = get \<and> urls ! i = url \<longrightarrow>
              (text_write env i = Written \<longrightarrow>
                 files s (webpage_filename i) = Some (TextFile text)) \<and>
              (\<forall>e n. text_write env i = WriteFailed e n \<longrightarrow>
                 files s (webpage_filename i) = Some (TextFile (take n text)) \<and>
                 newline \<notin> set (take n text)))"
proof -
  from assms obtain soup where "text = filtered_text soup"
    by (auto simp add: scrape_webpage_def split: sum.splits)
  then have nl: "newline \<notin> set text" by (simp add: filtered_text_no_newline)
  then have nl_take: "newline \<notin> set (take n text)" for n
    by (auto dest: in_set_takeD)
  have "(text_write env i = Written \<longrightarrow>
                 files s (webpage_filename i) = Some (TextFile text)) \<and>
              (\<forall>e n. text_write env i = WriteFailed e n \<longrightarrow>
                 files s (webpage_filename i) = Some (TextFile (take n text)) \<and>
                 newline \<notin> set (take n text))"
    if run: "save_to_files env urls s0 = Inr s" and i: "i < length urls"
      and g: "get_page env i = get" and u: "urls ! i = url"
    for env urls s0 s i
    using save_to_files_webpage_file[OF run i] assms g u nl_take
    by (simp add: process_url_files)
  with nl show ?thesis by blast
qed

theorem scraped_text_single_line_witness:
  "newline \<notin> set ''Welcome one two 3 4 5 6 7 8 9'' \<and>
   final_files (save_to_files env_sample urls_sample state0) ''data/webpage_0.txt''
     = Some (TextFile ''Welcome one two 3 4 5 6 7 8 9'')"
proof -
  obtain s where s: "save_to_files env_sample urls_sample state0 = Inr s"
    using run_sample by blast
  have sc: "scrape_webpage (get_page env_sample 0) ''https://a.example/''
      = Inr ''Welcome one two 3 4 5 6 7 8 9''"
    by (simp add: scrape_webpage_def env_sample_def get_page_sample_def page_long_text)
  have d: "str_nat 0 = ''0''" by code_simp
  from scraped_text_single_line[OF sc]
  have nl: "newline \<notin> set ''Welcome one two 3 4 5 6 7 8 9''"
    and "save_to_files env_sample urls_sample state0 = Inr s \<and> 0 < length urls_sample \<and>
         get_page env_sample 0 = get_page env_sample 0 \<and> urls_sample ! 0 = ''https://a.example/''
         \<longrightarrow> (text_write env_sample 0 = Written \<longrightarrow>
               files s (webpage_filename 0) = Some (TextFile ''Welcome one two 3 4 5 6 7 8 9''))"
    by blast+
  then have "files s (webpage_filename 0) = Some (TextFile ''Welcome one two 3 4 5 6 7 8 9'')"
    using s by (simp add: urls_sample_def env_sample_def always_written_def)
  then have "files s ''data/webpage_0.txt'' = Some (TextFile ''Welcome one two 3 4 5 6 7 8 9'')"
    unfolding webpage_filename_def d by simp
  with nl show ?thesis by (simp add: final_files_def s)
qed

end
